theory Spec2Isabelle
  imports Main
begin

section \<open>The CSS selector builder of \<open>src/objects-tasks.js\<close>\<close>

text \<open>
  The embedding follows \<open>class BaseElement\<close> and the object literal
  \<open>cssSelectorBuilder\<close>. Every method reads \<open>this.selectors\<close>; the only
  objects the code creates and hands out are the \<open>BaseElement\<close> instances, so these live
  in an explicit store and a method takes the address of its receiver. Arrays and the
  fragment literals \<open>{ type, value, order }\<close> are never written after their creation
  (the code only spreads, iterates and reduces them), so they are values.
\<close>

subsection \<open>Data\<close>

text \<open>One entry of a \<open>selectors\<close> array: \<open>{ type, value, order }\<close>.\<close>

record fragment =
  type :: string
  "value" :: string
  order :: nat

text \<open>
  An object carrying the builder's properties. Its method properties are the same
  functions in every object (\<open>Object.assign\<close> copies them from the receiver), so the only
  property that differs between objects is \<open>selectors\<close>.
\<close>

record obj =
  selectors :: "fragment list"

type_synonym addr = nat

text \<open>The store: the objects allocated so far; an address is an index.\<close>

type_synonym heap = "obj list"

text \<open>
  \<open>Error msg\<close> is \<open>new Error(msg)\<close>. \<open>TypeError\<close> is what JavaScript raises when a
  property of a receiver that is no object is read; the model raises it for an address
  outside the store.
\<close>

datatype error = Error string | TypeError

definition lookup :: "heap \<Rightarrow> addr \<Rightarrow> obj option" where
  "lookup h a = (if a < length h then Some (h ! a) else None)"

text \<open>The builder object itself: \<open>const cssSelectorBuilder = { selectors: [], ... }\<close>.\<close>

definition cssSelectorBuilder :: addr where
  "cssSelectorBuilder = 0"

definition init_heap :: heap where
  "init_heap = [\<lparr>selectors = []\<rparr>]"

subsection \<open>\<open>BaseElement\<close>\<close>

definition order_msg :: string where
  "order_msg = ''Selector parts should be arranged in the following order: element, id, class, attribute, pseudo-class, pseudo-element''"

text \<open>The body of \<open>this.selectors.forEach\<close> in \<open>checkOrder\<close>, with \<open>prevElOrder\<close> threaded.\<close>

fun checkOrder_forEach :: "nat \<Rightarrow> fragment list \<Rightarrow> error + unit" where
  "checkOrder_forEach prevElOrder [] = Inr ()"
| "checkOrder_forEach prevElOrder (el # els) =
     (if order el < prevElOrder then Inl (Error order_msg)
      else checkOrder_forEach (order el) els)"

definition checkOrder :: "addr \<Rightarrow> heap \<Rightarrow> error + unit" where
  "checkOrder this h =
     (case lookup h this of
        None \<Rightarrow> Inl TypeError
      | Some ob \<Rightarrow> checkOrder_forEach 0 (selectors ob))"

text \<open>
  \<open>new BaseElement(obj, selectors)\<close>: a fresh object \<open>this\<close> receives the properties of
  \<open>obj\<close>, then those of the literal \<open>{ selectors: newSelectors }\<close>, and is checked. When
  \<open>checkOrder\<close> throws, the object has been allocated but is not returned.
\<close>

definition BaseElement :: "addr \<Rightarrow> obj \<Rightarrow> heap \<Rightarrow> (error + addr) \<times> heap" where
  "BaseElement obj sels h =
     (let this = length h;
          assigned = (case lookup h obj of
                        None \<Rightarrow> sels
                      | Some src \<Rightarrow> src\<lparr>selectors := selectors sels\<rparr>);
          h' = h @ [assigned]
      in case checkOrder this h' of
           Inl e \<Rightarrow> (Inl e, h')
         | Inr _ \<Rightarrow> (Inr this, h'))"

subsection \<open>\<open>cssSelectorBuilder\<close>\<close>

definition privatMethod ::
  "string \<Rightarrow> nat \<Rightarrow> string \<Rightarrow> string \<Rightarrow> string \<Rightarrow> addr \<Rightarrow> heap \<Rightarrow> (error + addr) \<times> heap" where
  "privatMethod prefix ord ty v prefixEnd this h =
     (case lookup h this of
        None \<Rightarrow> (Inl TypeError, h)
      | Some ob \<Rightarrow>
          (let newSelectors = selectors ob @ [\<lparr>type = ty, value = prefix @ v @ prefixEnd, order = ord\<rparr>]
           in BaseElement this \<lparr>selectors = newSelectors\<rparr> h))"

text \<open>
  A property of \<open>validateObj\<close>: absent (\<open>undefined\<close>), \<open>NaN\<close> or a count.
  \<open>undefined + 1\<close> and \<open>NaN + 1\<close> are \<open>NaN\<close>; \<open>undefined > 0\<close> and \<open>NaN > 0\<close> are false.
\<close>

datatype jsnum = NaN | Num nat

definition plus_one :: "jsnum option \<Rightarrow> jsnum" where
  "plus_one x = (case x of None \<Rightarrow> NaN | Some NaN \<Rightarrow> NaN | Some (Num n) \<Rightarrow> Num (n + 1))"

definition gt_zero :: "jsnum option \<Rightarrow> bool" where
  "gt_zero x = (case x of None \<Rightarrow> False | Some NaN \<Rightarrow> False | Some (Num n) \<Rightarrow> 0 < n)"

definition dup_msg :: string where
  "dup_msg = ''Element, id and pseudo-element should not occur more then one time inside the selector''"

definition validateArr :: "string list" where
  "validateArr = [''element'', ''id'', ''pseudoElement'']"

text \<open>The \<open>forEach\<close> of \<open>validateMetod\<close>: \<open>validateObj[el.type] += 1\<close> for every fragment.\<close>

fun validate_forEach :: "(string \<rightharpoonup> jsnum) \<Rightarrow> fragment list \<Rightarrow> (string \<rightharpoonup> jsnum)" where
  "validate_forEach validateObj [] = validateObj"
| "validate_forEach validateObj (el # els) =
     validate_forEach (validateObj(type el \<mapsto> plus_one (validateObj (type el)))) els"

definition validateMetod :: "string \<Rightarrow> addr \<Rightarrow> heap \<Rightarrow> error + unit" where
  "validateMetod selectorType this h =
     (case lookup h this of
        None \<Rightarrow> Inl TypeError
      | Some ob \<Rightarrow>
          (let validateObj = validate_forEach
                 [''element'' \<mapsto> Num 0, ''id'' \<mapsto> Num 0, ''pseudoElement'' \<mapsto> Num 0]
                 (selectors ob)
           in if selectorType \<in> set validateArr \<and> gt_zero (validateObj selectorType)
              then Inl (Error dup_msg)
              else Inr ()))"

definition element :: "string \<Rightarrow> addr \<Rightarrow> heap \<Rightarrow> (error + addr) \<times> heap" where
  "element v this h =
     (case validateMetod ''element'' this h of
        Inl e \<Rightarrow> (Inl e, h)
      | Inr _ \<Rightarrow> privatMethod '''' 1 ''element'' v '''' this h)"

definition id_sel :: "string \<Rightarrow> addr \<Rightarrow> heap \<Rightarrow> (error + addr) \<times> heap" where
  "id_sel v this h =
     (case validateMetod ''id'' this h of
        Inl e \<Rightarrow> (Inl e, h)
      | Inr _ \<Rightarrow> privatMethod ''#'' 2 ''id'' v '''' this h)"

definition class_sel :: "string \<Rightarrow> addr \<Rightarrow> heap \<Rightarrow> (error + addr) \<times> heap" where
  "class_sel v this h =
     (case validateMetod ''class'' this h of
        Inl e \<Rightarrow> (Inl e, h)
      | Inr _ \<Rightarrow> privatMethod ''.'' 3 ''class'' v '''' this h)"

definition attr :: "string \<Rightarrow> addr \<Rightarrow> heap \<Rightarrow> (error + addr) \<times> heap" where
  "attr v this h =
     (case validateMetod ''attr'' this h of
        Inl e \<Rightarrow> (Inl e, h)
      | Inr _ \<Rightarrow> privatMethod ''['' 4 ''attr'' v '']'' this h)"

definition pseudoClass :: "string \<Rightarrow> addr \<Rightarrow> heap \<Rightarrow> (error + addr) \<times> heap" where
  "pseudoClass v this h =
     (case validateMetod ''pseudoClass'' this h of
        Inl e \<Rightarrow> (Inl e, h)
      | Inr _ \<Rightarrow> privatMethod '':'' 5 ''pseudoClass'' v '''' this h)"

definition pseudoElement :: "string \<Rightarrow> addr \<Rightarrow> heap \<Rightarrow> (error + addr) \<times> heap" where
  "pseudoElement v this h =
     (case validateMetod ''pseudoElement'' this h of
        Inl e \<Rightarrow> (Inl e, h)
      | Inr _ \<Rightarrow> privatMethod ''::'' 6 ''pseudoElement'' v '''' this h)"

text \<open>\<open>this.selectors.reduce((acc, el) => acc + el.value, '')\<close>.\<close>

definition stringify :: "addr \<Rightarrow> heap \<Rightarrow> error + string" where
  "stringify this h =
     (case lookup h this of
        None \<Rightarrow> Inl TypeError
      | Some ob \<Rightarrow> Inr (foldl (\<lambda>acc el. acc @ value el) [] (selectors ob)))"

text \<open>
  \<open>combine\<close> returns an object whose only property is a \<open>stringify\<close> closure over its three
  arguments. An operand is any object with a \<open>stringify\<close> method, that is a selector in the
  store or another result of \<open>combine\<close>.
\<close>

datatype stringifiable =
  Selector addr
  | Combined stringifiable string stringifiable

definition combine :: "stringifiable \<Rightarrow> string \<Rightarrow> stringifiable \<Rightarrow> stringifiable" where
  "combine selector1 combinator selector2 = Combined selector1 combinator selector2"

fun stringify_of :: "stringifiable \<Rightarrow> heap \<Rightarrow> error + string" where
  "stringify_of (Selector a) h = stringify a h"
| "stringify_of (Combined selector1 combinator selector2) h =
     (case stringify_of selector1 h of
        Inl e \<Rightarrow> Inl e
      | Inr s1 \<Rightarrow>
          (case stringify_of selector2 h of
             Inl e \<Rightarrow> Inl e
           | Inr s2 \<Rightarrow> Inr (s1 @ '' '' @ combinator @ '' '' @ s2)))"

subsection \<open>Calls, chains and the fragments of the specification\<close>

text \<open>One builder call: the method and its argument.\<close>

datatype call =
  CElement string
  | CId string
  | CClass string
  | CAttr string
  | CPseudoClass string
  | CPseudoElement string

fun invoke :: "call \<Rightarrow> addr \<Rightarrow> heap \<Rightarrow> (error + addr) \<times> heap" where
  "invoke (CElement v) this h = element v this h"
| "invoke (CId v) this h = id_sel v this h"
| "invoke (CClass v) this h = class_sel v this h"
| "invoke (CAttr v) this h = attr v this h"
| "invoke (CPseudoClass v) this h = pseudoClass v this h"
| "invoke (CPseudoElement v) this h = pseudoElement v this h"

text \<open>
  A chain \<open>this.m1(v1).m2(v2)...\<close>: each call's receiver is the result of the call before
  it, and the first exception ends the chain.
\<close>

fun chain :: "call list \<Rightarrow> addr \<Rightarrow> heap \<Rightarrow> (error + addr) \<times> heap" where
  "chain [] this h = (Inr this, h)"
| "chain (c # cs) this h =
     (case invoke c this h of
        (Inl e, h') \<Rightarrow> (Inl e, h')
      | (Inr a, h') \<Rightarrow> chain cs a h')"

text \<open>
  The specification's fragment of a call: its kind (the \<open>type\<close> string of the code), its
  rank (Element 1, Id 2, Class 3, Attribute 4, PseudoClass 5, PseudoElement 6) and its
  formatted text.
\<close>

fun kind :: "call \<Rightarrow> string" where
  "kind (CElement v) = ''element''"
| "kind (CId v) = ''id''"
| "kind (CClass v) = ''class''"
| "kind (CAttr v) = ''attr''"
| "kind (CPseudoClass v) = ''pseudoClass''"
| "kind (CPseudoElement v) = ''pseudoElement''"

fun rank :: "call \<Rightarrow> nat" where
  "rank (CElement v) = 1"
| "rank (CId v) = 2"
| "rank (CClass v) = 3"
| "rank (CAttr v) = 4"
| "rank (CPseudoClass v) = 5"
| "rank (CPseudoElement v) = 6"

fun text_of :: "call \<Rightarrow> string" where
  "text_of (CElement v) = v"
| "text_of (CId v) = ''#'' @ v"
| "text_of (CClass v) = ''.'' @ v"
| "text_of (CAttr v) = ''['' @ v @ '']''"
| "text_of (CPseudoClass v) = '':'' @ v"
| "text_of (CPseudoElement v) = ''::'' @ v"

definition fragment_of :: "call \<Rightarrow> fragment" where
  "fragment_of c = \<lparr>type = kind c, value = text_of c, order = rank c\<rparr>"

text \<open>The kinds that may occur once only: Element, Id and PseudoElement.\<close>

definition singleton_kind :: "string \<Rightarrow> bool" where
  "singleton_kind k = (k = ''element'' \<or> k = ''id'' \<or> k = ''pseudoElement'')"

text \<open>What a caller can observe of a result: the error, or the fragments of the new selector.\<close>

definition observe :: "(error + addr) \<times> heap \<Rightarrow> error + fragment list option" where
  "observe r = (case r of
       (Inl e, h) \<Rightarrow> Inl e
     | (Inr a, h) \<Rightarrow> Inr (map_option selectors (lookup h a)))"

text \<open>Every object of the first store is still there, unchanged, in the second.\<close>

definition preserved :: "heap \<Rightarrow> heap \<Rightarrow> bool" where
  "preserved h h' = (take (length h) h' = h)"

text \<open>
  The invariant of a selector's fragment sequence: ranks never decrease, and the kinds
  Element, Id and PseudoElement occur at most once each.
\<close>

definition selector_inv :: "fragment list \<Rightarrow> bool" where
  "selector_inv fs =
     (sorted (map order fs)
      \<and> count_list (map type fs) ''element'' \<le> 1
      \<and> count_list (map type fs) ''id'' \<le> 1
      \<and> count_list (map type fs) ''pseudoElement'' \<le> 1)"

text \<open>
  The example of the source's documentation comment, its arguments evaluated from left to
  right: four chains from the builder, then three nested \<open>combine\<close> calls, then
  \<open>stringify()\<close>.
\<close>

definition doc_example :: "error + string" where
  "doc_example =
     (case chain [CElement ''div'', CId ''main'', CClass ''container'', CClass ''draggable'']
             cssSelectorBuilder init_heap of
        (Inl e, h1) \<Rightarrow> Inl e
      | (Inr a1, h1) \<Rightarrow>
     (case chain [CElement ''table'', CId ''data''] cssSelectorBuilder h1 of
        (Inl e, h2) \<Rightarrow> Inl e
      | (Inr a2, h2) \<Rightarrow>
     (case chain [CElement ''tr'', CPseudoClass ''nth-of-type(even)''] cssSelectorBuilder h2 of
        (Inl e, h3) \<Rightarrow> Inl e
      | (Inr a3, h3) \<Rightarrow>
     (case chain [CElement ''td'', CPseudoClass ''nth-of-type(even)''] cssSelectorBuilder h3 of
        (Inl e, h4) \<Rightarrow> Inl e
      | (Inr a4, h4) \<Rightarrow>
          stringify_of
            (combine (Selector a1) ''+''
               (combine (Selector a2) ''~''
                  (combine (Selector a3) '' '' (Selector a4))))
            h4))))"

section \<open>Properties\<close>

lemma checkOrder_forEach_sorted:
  "checkOrder_forEach p fs = (if sorted (p # map order fs) then Inr () else Inl (Error order_msg))"
  by (induction fs arbitrary: p) auto

lemma validate_forEach_count:
  "m k = Some (Num n) \<Longrightarrow>
   validate_forEach m fs k = Some (Num (n + count_list (map type fs) k))"
  by (induction fs arbitrary: m n) (auto simp: plus_one_def)

lemma count_pos: "0 < count_list xs x \<longleftrightarrow> x \<in> set xs"
  by (induction xs) auto

lemma validate_gt_zero:
  assumes "m t = Some (Num 0)"
  shows "gt_zero (validate_forEach m fs t) = (t \<in> type ` set fs)"
proof -
  have "validate_forEach m fs t = Some (Num (count_list (map type fs) t))"
    using validate_forEach_count[of m t 0 fs] assms by simp
  then have "gt_zero (validate_forEach m fs t) = (0 < count_list (map type fs) t)"
    by (simp add: gt_zero_def)
  then show ?thesis by (simp add: count_pos)
qed

lemma validateMetod_char:
  assumes "lookup h this = Some ob"
  shows "validateMetod t this h =
     (if singleton_kind t \<and> t \<in> type ` set (selectors ob) then Inl (Error dup_msg) else Inr ())"
proof (cases "singleton_kind t")
  case True
  then have "[''element'' \<mapsto> Num 0, ''id'' \<mapsto> Num 0, ''pseudoElement'' \<mapsto> Num 0] t = Some (Num 0)"
    by (auto simp: singleton_kind_def)
  with validate_gt_zero[of _ t "selectors ob"] True assms show ?thesis
    by (simp add: validateMetod_def validateArr_def singleton_kind_def)
next
  case False
  with assms show ?thesis
    by (simp add: validateMetod_def validateArr_def singleton_kind_def)
qed

lemma lookup_append:
  "lookup (h @ [x]) a = (if a = length h then Some x else lookup h a)"
  by (auto simp: lookup_def nth_append)

lemma privatMethod_char:
  "lookup h this = Some ob \<Longrightarrow>
   privatMethod pre ord ty v post this h =
     (let fs = selectors ob @ [\<lparr>type = ty, value = pre @ v @ post, order = ord\<rparr>];
          h' = h @ [\<lparr>selectors = fs\<rparr>]
      in if sorted (map order fs) then (Inr (length h), h') else (Inl (Error order_msg), h'))"
  unfolding privatMethod_def BaseElement_def checkOrder_def Let_def
  by (simp add: lookup_append checkOrder_forEach_sorted)

lemma invoke_char:
  "lookup h this = Some ob \<Longrightarrow>
   invoke c this h =
     (if singleton_kind (kind c) \<and> kind c \<in> type ` set (selectors ob)
      then (Inl (Error dup_msg), h)
      else (let fs = selectors ob @ [fragment_of c];
                h' = h @ [\<lparr>selectors = fs\<rparr>]
            in if sorted (map order fs) then (Inr (length h), h')
               else (Inl (Error order_msg), h')))"
  by (cases c)
     (simp_all add: element_def id_sel_def class_sel_def attr_def pseudoClass_def
        pseudoElement_def validateMetod_char privatMethod_char fragment_of_def Let_def)

lemma invoke_dangling:
  "lookup h this = None \<Longrightarrow> invoke c this h = (Inl TypeError, h)"
  by (cases c)
     (simp_all add: element_def id_sel_def class_sel_def attr_def pseudoClass_def
        pseudoElement_def validateMetod_def)


lemma stringify_fold: "foldl (\<lambda>acc el. acc @ value el) acc fs = acc @ concat (map value fs)"
  by (induction fs arbitrary: acc) auto

lemma stringify_char:
  "lookup h this = Some ob \<Longrightarrow> stringify this h = Inr (concat (map value (selectors ob)))"
  by (simp add: stringify_def stringify_fold)

lemma lookup_preserved:
  "preserved h h' \<Longrightarrow> lookup h a = Some ob \<Longrightarrow> lookup h' a = Some ob"
  unfolding preserved_def lookup_def
  by (metis length_take min.strict_boundedE nth_take option.inject option.simps(3))

lemma preserved_refl: "preserved h h"
  by (simp add: preserved_def)

lemma preserved_append: "preserved h (h @ xs)"
  by (simp add: preserved_def)

lemma preserved_trans: "preserved h h' \<Longrightarrow> preserved h' h'' \<Longrightarrow> preserved h h''"
  unfolding preserved_def
  by (metis append_take_drop_id length_take min.absorb_iff2 nat_le_linear take_all take_append take_take)

lemma invoke_preserved: "invoke c this h = (r, h') \<Longrightarrow> preserved h h'"
proof (cases "lookup h this")
  case None
  assume "invoke c this h = (r, h')"
  with None show ?thesis by (simp add: invoke_dangling preserved_refl)
next
  case (Some ob)
  assume "invoke c this h = (r, h')"
  with Some show ?thesis
    by (auto simp: invoke_char Let_def preserved_refl preserved_append split: if_splits)
qed

lemma chain_preserved: "chain cs this h = (r, h') \<Longrightarrow> preserved h h'"
proof (induction cs arbitrary: this h)
  case Nil
  then show ?case by (simp add: preserved_refl)
next
  case (Cons c cs)
  obtain r1 h1 where i: "invoke c this h = (r1, h1)" by (cases "invoke c this h")
  show ?case
  proof (cases r1)
    case (Inl e)
    with Cons.prems i show ?thesis by (auto dest: invoke_preserved)
  next
    case (Inr a)
    with Cons.prems i have "chain cs a h1 = (r, h')" by simp
    then have "preserved h1 h'" by (rule Cons.IH)
    with invoke_preserved[OF i] show ?thesis by (rule preserved_trans)
  qed
qed

lemma invoke_result:
  "lookup h this = Some ob \<Longrightarrow> invoke c this h = (Inr a, h') \<Longrightarrow>
   a = length h \<and> lookup h' a = Some \<lparr>selectors = selectors ob @ [fragment_of c]\<rparr>"
  by (auto simp: invoke_char Let_def lookup_append split: if_splits)

lemma chain_result:
  "lookup h this = Some ob \<Longrightarrow> chain cs this h = (Inr a, h') \<Longrightarrow>
   lookup h' a = Some \<lparr>selectors = selectors ob @ map fragment_of cs\<rparr>"
proof (induction cs arbitrary: this h ob)
  case Nil
  then show ?case by simp
next
  case (Cons c cs)
  obtain r1 h1 where i: "invoke c this h = (r1, h1)" by (cases "invoke c this h")
  with Cons.prems obtain b where b: "r1 = Inr b" and rest: "chain cs b h1 = (Inr a, h')"
    by (cases r1) auto
  from invoke_result[OF Cons.prems(1) i[unfolded b]]
  have "lookup h1 b = Some \<lparr>selectors = selectors ob @ [fragment_of c]\<rparr>" by blast
  from Cons.IH[OF this rest] show ?case by simp
qed



lemma msgs_differ: "dup_msg \<noteq> order_msg"
  by (simp add: dup_msg_def order_msg_def)

lemma root_initially: "lookup init_heap cssSelectorBuilder = Some \<lparr>selectors = []\<rparr>"
  by (simp add: lookup_def init_heap_def cssSelectorBuilder_def)

lemma order_fragment_of [simp]: "order (fragment_of c) = rank c"
  by (simp add: fragment_of_def)

lemma type_fragment_of [simp]: "type (fragment_of c) = kind c"
  by (simp add: fragment_of_def)

lemma value_fragment_of [simp]: "value (fragment_of c) = text_of c"
  by (simp add: fragment_of_def)

lemma checkOrder_char:
  "lookup h this = Some ob \<Longrightarrow>
   checkOrder this h = (if sorted (map order (selectors ob)) then Inr () else Inl (Error order_msg))"
  by (simp add: checkOrder_def checkOrder_forEach_sorted)

subsection \<open>Stringification\<close>

text \<open>
  C1. For every chain of successful builder calls from the builder root, \<open>stringify()\<close>
  returns the concatenation, in call order and with no separator, of the texts of the
  calls: \<open>element(v)\<close> contributes \<open>v\<close>, \<open>id(v)\<close> contributes \<open>#v\<close>, \<open>class(v)\<close>
  contributes \<open>.v\<close>, \<open>attr(v)\<close> contributes \<open>[v]\<close>, \<open>pseudoClass(v)\<close> contributes
  \<open>:v\<close> and \<open>pseudoElement(v)\<close> contributes \<open>::v\<close> (the function \<open>text_of\<close>). In
  particular \<open>element("a").attr('href$=".png"').pseudoClass("focus").stringify()\<close> is
  \<open>a[href$=".png"]:focus\<close>.
\<close>

theorem stringify_concatenates_texts:
  \<open>(\<forall>cs h a h'.
       lookup h cssSelectorBuilder = Some \<lparr>selectors = []\<rparr> \<and>
       chain cs cssSelectorBuilder h = (Inr a, h')
       \<longrightarrow> stringify a h' = Inr (concat (map text_of cs)))
   \<and> (\<exists>a h'.
       chain [CElement ''a'', CAttr ''href$=".png"'', CPseudoClass ''focus'']
         cssSelectorBuilder init_heap = (Inr a, h')
       \<and> stringify a h' = Inr ''a[href$=".png"]:focus'')\<close>
proof (intro conjI allI impI)
  fix cs h a h'
  assume "lookup h cssSelectorBuilder = Some \<lparr>selectors = []\<rparr> \<and>
          chain cs cssSelectorBuilder h = (Inr a, h')"
  then have "lookup h' a = Some \<lparr>selectors = [] @ map fragment_of cs\<rparr>"
    using chain_result[of h cssSelectorBuilder "\<lparr>selectors = []\<rparr>" cs a h'] by simp
  then show "stringify a h' = Inr (concat (map text_of cs))"
    by (simp add: stringify_char comp_def)
next
  let ?cs = \<open>[CElement ''a'', CAttr ''href$=".png"'', CPseudoClass ''focus'']\<close>
  obtain r h' where c: "chain ?cs cssSelectorBuilder init_heap = (r, h')"
    by (cases "chain ?cs cssSelectorBuilder init_heap")
  have "fst (chain ?cs cssSelectorBuilder init_heap) = Inr 3"
    by code_simp
  with c have r: "r = Inr 3" by simp
  have \<open>stringify 3 (snd (chain ?cs cssSelectorBuilder init_heap)) = Inr ''a[href$=".png"]:focus''\<close>
    by code_simp
  with c r show \<open>\<exists>a h'. chain ?cs cssSelectorBuilder init_heap = (Inr a, h')
       \<and> stringify a h' = Inr ''a[href$=".png"]:focus''\<close>
    by auto
qed

theorem stringify_concatenates_texts_witness:
  "lookup init_heap cssSelectorBuilder = Some \<lparr>selectors = []\<rparr>
   \<and> fst (chain [CId ''main'', CClass ''container'', CClass ''editable''] cssSelectorBuilder init_heap) = Inr 3
   \<and> stringify 3 (snd (chain [CId ''main'', CClass ''container'', CClass ''editable''] cssSelectorBuilder init_heap))
       = Inr ''#main.container.editable''"
proof -
  let ?cs = "[CId ''main'', CClass ''container'', CClass ''editable'']"
  have f: "fst (chain ?cs cssSelectorBuilder init_heap) = Inr 3"
    by code_simp
  then have c: "chain ?cs cssSelectorBuilder init_heap = (Inr 3, snd (chain ?cs cssSelectorBuilder init_heap))"
    by (metis prod.collapse)
  from stringify_concatenates_texts[THEN conjunct1, rule_format, OF conjI[OF root_initially c]]
  have "stringify 3 (snd (chain ?cs cssSelectorBuilder init_heap)) = Inr (concat (map text_of ?cs))" .
  with f root_initially show ?thesis by simp
qed

text \<open>
  C10. \<open>stringify()\<close> called on the builder root before any fragment has been appended
  returns the empty string and raises nothing.
\<close>

theorem stringify_root_empty: "stringify cssSelectorBuilder init_heap = Inr []"
  by (simp add: stringify_def lookup_def init_heap_def cssSelectorBuilder_def)

subsection \<open>The two checks\<close>

lemma sorted_snoc_last:
  "fs \<noteq> [] \<Longrightarrow> sorted (map order fs) \<Longrightarrow>
   sorted (map order (fs @ [f])) = (order (last fs) \<le> order f)"
proof -
  assume ne: "fs \<noteq> []" and s: "sorted (map order fs)"
  have "\<forall>x\<in>set fs. order x \<le> order (last fs)"
  proof
    fix x assume "x \<in> set fs"
    then obtain i where i: "i < length fs" and x: "fs ! i = x"
      by (auto simp: in_set_conv_nth)
    from s i ne have "map order fs ! i \<le> map order fs ! (length fs - 1)"
      by (intro sorted_nth_mono) auto
    with i x ne show "order x \<le> order (last fs)"
      by (simp add: last_conv_nth)
  qed
  with ne s show ?thesis
    by (auto simp: sorted_append intro: order_trans)
qed

lemma unsorted_snoc_lower:
  "fs \<noteq> [] \<Longrightarrow> order f < order (last fs) \<Longrightarrow> \<not> sorted (map order (fs @ [f]))"
  by (auto simp: sorted_append intro!: bexI[of _ "last fs"])

text \<open>
  C2, as amended. A call that passes the uniqueness check and appends a fragment whose
  rank is strictly lower than the rank of the last fragment of its receiver fails with
  the out-of-order error. A call that appends a fragment of the same rank as the last
  fragment of its receiver does not raise the out-of-order error, the receiver having
  passed the ordering check itself, as every selector that the builder returns has.
\<close>

theorem lower_rank_out_of_order:
  assumes "lookup h this = Some ob" and "selectors ob \<noteq> []"
  shows "(rank c < order (last (selectors ob)) \<and> validateMetod (kind c) this h = Inr ()
            \<longrightarrow> fst (invoke c this h) = Inl (Error order_msg))
       \<and> (rank c = order (last (selectors ob)) \<and> checkOrder this h = Inr ()
            \<longrightarrow> fst (invoke c this h) \<noteq> Inl (Error order_msg))"
proof (intro conjI impI)
  assume a: "rank c < order (last (selectors ob)) \<and> validateMetod (kind c) this h = Inr ()"
  then have "\<not> (singleton_kind (kind c) \<and> kind c \<in> type ` set (selectors ob))"
    using assms(1) by (auto simp: validateMetod_char split: if_splits)
  moreover have "\<not> sorted (map order (selectors ob @ [fragment_of c]))"
    using a assms(2) by (intro unsorted_snoc_lower) simp_all
  ultimately show "fst (invoke c this h) = Inl (Error order_msg)"
    using assms(1) by (auto simp: invoke_char Let_def)
next
  assume a: "rank c = order (last (selectors ob)) \<and> checkOrder this h = Inr ()"
  then have "sorted (map order (selectors ob))"
    using assms(1) by (simp add: checkOrder_char split: if_splits)
  with a assms(2) have "sorted (map order (selectors ob @ [fragment_of c]))"
    using sorted_snoc_last[of "selectors ob" "fragment_of c"] by simp
  then show "fst (invoke c this h) \<noteq> Inl (Error order_msg)"
    using assms(1) msgs_differ by (simp add: invoke_char Let_def)
qed

text \<open>
  C2 as stated fails: \<open>id("a").class("b").id("x")\<close> appends rank 2 after rank 3,
  and the error is the duplicate error of \<open>validateMetod\<close>, not the out-of-order error.
\<close>

theorem lower_rank_out_of_order_counterexample:
  "fst (chain [CId ''a'', CClass ''b''] cssSelectorBuilder init_heap) = Inr 2
   \<and> rank (CId ''x'') < rank (CClass ''b'')
   \<and> fst (invoke (CId ''x'') 2 (snd (chain [CId ''a'', CClass ''b''] cssSelectorBuilder init_heap)))
       = Inl (Error dup_msg)
   \<and> Error dup_msg \<noteq> Error order_msg"
proof (intro conjI)
  show "fst (chain [CId ''a'', CClass ''b''] cssSelectorBuilder init_heap) = Inr 2"
    by code_simp
  show "rank (CId ''x'') < rank (CClass ''b'')"
    by simp
  show "fst (invoke (CId ''x'') 2 (snd (chain [CId ''a'', CClass ''b''] cssSelectorBuilder init_heap)))
       = Inl (Error dup_msg)"
    by code_simp
  show "Error dup_msg \<noteq> Error order_msg"
    by (simp add: msgs_differ)
qed

theorem lower_rank_out_of_order_witness:
  "chain [CClass ''a''] cssSelectorBuilder init_heap
     = (Inr 1, [\<lparr>selectors = []\<rparr>, \<lparr>selectors = [\<lparr>type = ''class'', value = ''.a'', order = 3\<rparr>]\<rparr>])
   \<and> fst (invoke (CElement ''div'') 1
         [\<lparr>selectors = []\<rparr>, \<lparr>selectors = [\<lparr>type = ''class'', value = ''.a'', order = 3\<rparr>]\<rparr>])
       = Inl (Error order_msg)
   \<and> fst (invoke (CClass ''b'') 1
         [\<lparr>selectors = []\<rparr>, \<lparr>selectors = [\<lparr>type = ''class'', value = ''.a'', order = 3\<rparr>]\<rparr>])
       \<noteq> Inl (Error order_msg)"
proof -
  let ?ob = "\<lparr>selectors = [\<lparr>type = ''class'', value = ''.a'', order = 3\<rparr>]\<rparr>"
  let ?H = "[\<lparr>selectors = []\<rparr>, ?ob]"
  have c: "chain [CClass ''a''] cssSelectorBuilder init_heap = (Inr 1, ?H)"
    by code_simp
  have l: "lookup ?H 1 = Some ?ob"
    by (simp add: lookup_def)
  have ne: "selectors ?ob \<noteq> []"
    by simp
  have lower: "rank (CElement ''div'') < order (last (selectors ?ob))
      \<and> validateMetod (kind (CElement ''div'')) 1 ?H = Inr ()"
    by code_simp
  have same: "rank (CClass ''b'') = order (last (selectors ?ob)) \<and> checkOrder 1 ?H = Inr ()"
    by code_simp
  from lower_rank_out_of_order[OF l ne, of "CElement ''div''", THEN conjunct1, rule_format, OF lower]
       lower_rank_out_of_order[OF l ne, of "CClass ''b''", THEN conjunct2, rule_format, OF same]
       c
  show ?thesis by simp
qed

text \<open>
  C3, as amended. Every attempt to append a fragment of kind Element, Id or
  PseudoElement to a selector that already holds a fragment of that kind fails with the
  duplicate error, whatever the ranks, before any object is created; the error is one
  fixed message for the three kinds and does not say which kind was repeated. A call of
  kind Class, Attribute or PseudoClass never raises this error.
\<close>

theorem duplicate_singleton_rejected:
  assumes "lookup h this = Some ob"
  shows "(kind c \<in> {''element'', ''id'', ''pseudoElement''} \<and> kind c \<in> type ` set (selectors ob)
            \<longrightarrow> invoke c this h = (Inl (Error dup_msg), h))
       \<and> (kind c \<in> {''class'', ''attr'', ''pseudoClass''}
            \<longrightarrow> fst (invoke c this h) \<noteq> Inl (Error dup_msg))"
proof (intro conjI impI)
  assume "kind c \<in> {''element'', ''id'', ''pseudoElement''} \<and> kind c \<in> type ` set (selectors ob)"
  then have "singleton_kind (kind c) \<and> kind c \<in> type ` set (selectors ob)"
    by (simp add: singleton_kind_def)
  with assms show "invoke c this h = (Inl (Error dup_msg), h)"
    by (simp add: invoke_char)
next
  assume "kind c \<in> {''class'', ''attr'', ''pseudoClass''}"
  then have "\<not> singleton_kind (kind c)"
    by (auto simp: singleton_kind_def)
  with assms msgs_differ show "fst (invoke c this h) \<noteq> Inl (Error dup_msg)"
    by (auto simp: invoke_char Let_def)
qed

text \<open>
  C3 as stated fails in that the error does not identify the kind: a repeated
  Element and a repeated Id raise the same error value.
\<close>

theorem duplicate_singleton_counterexample:
  "fst (chain [CElement ''div'', CElement ''span''] cssSelectorBuilder init_heap) = Inl (Error dup_msg)
   \<and> fst (chain [CId ''a'', CId ''b''] cssSelectorBuilder init_heap) = Inl (Error dup_msg)
   \<and> kind (CElement ''span'') \<noteq> kind (CId ''b'')"
proof (intro conjI)
  show "fst (chain [CElement ''div'', CElement ''span''] cssSelectorBuilder init_heap) = Inl (Error dup_msg)"
    by code_simp
  show "fst (chain [CId ''a'', CId ''b''] cssSelectorBuilder init_heap) = Inl (Error dup_msg)"
    by code_simp
  show "kind (CElement ''span'') \<noteq> kind (CId ''b'')"
    by simp
qed

theorem duplicate_singleton_rejected_witness:
  "chain [CElement ''div''] cssSelectorBuilder init_heap
     = (Inr 1, [\<lparr>selectors = []\<rparr>, \<lparr>selectors = [\<lparr>type = ''element'', value = ''div'', order = 1\<rparr>]\<rparr>])
   \<and> invoke (CElement ''span'') 1
        [\<lparr>selectors = []\<rparr>, \<lparr>selectors = [\<lparr>type = ''element'', value = ''div'', order = 1\<rparr>]\<rparr>]
       = (Inl (Error dup_msg),
          [\<lparr>selectors = []\<rparr>, \<lparr>selectors = [\<lparr>type = ''element'', value = ''div'', order = 1\<rparr>]\<rparr>])
   \<and> fst (invoke (CClass ''c'') 1
        [\<lparr>selectors = []\<rparr>, \<lparr>selectors = [\<lparr>type = ''element'', value = ''div'', order = 1\<rparr>]\<rparr>])
       \<noteq> Inl (Error dup_msg)"
proof -
  let ?ob = "\<lparr>selectors = [\<lparr>type = ''element'', value = ''div'', order = 1\<rparr>]\<rparr>"
  let ?H = "[\<lparr>selectors = []\<rparr>, ?ob]"
  have c: "chain [CElement ''div''] cssSelectorBuilder init_heap = (Inr 1, ?H)"
    by code_simp
  have l: "lookup ?H 1 = Some ?ob"
    by (simp add: lookup_def)
  have dup: "kind (CElement ''span'') \<in> {''element'', ''id'', ''pseudoElement''}
      \<and> kind (CElement ''span'') \<in> type ` set (selectors ?ob)"
    by simp
  have rep: "kind (CClass ''c'') \<in> {''class'', ''attr'', ''pseudoClass''}"
    by simp
  from duplicate_singleton_rejected[OF l, of "CElement ''span''", THEN conjunct1, rule_format, OF dup]
       duplicate_singleton_rejected[OF l, of "CClass ''c''", THEN conjunct2, rule_format, OF rep]
       c
  show ?thesis by simp
qed

text \<open>
  C4. A call that would violate both rules (its kind is Element, Id or PseudoElement and
  already present, and the ordering check would reject the extended sequence) fails with
  the duplicate error, which is not the out-of-order error: \<open>validateMetod\<close> runs first,
  and no \<open>BaseElement\<close> is constructed, so the store is unchanged.
\<close>

theorem uniqueness_checked_before_order:
  assumes "lookup h this = Some ob"
    and "kind c \<in> {''element'', ''id'', ''pseudoElement''}"
    and "kind c \<in> type ` set (selectors ob)"
    and "checkOrder_forEach 0 (selectors ob @ [fragment_of c]) = Inl (Error order_msg)"
  shows "invoke c this h = (Inl (Error dup_msg), h) \<and> Error dup_msg \<noteq> Error order_msg"
proof -
  from assms(2) have "singleton_kind (kind c)"
    by (simp add: singleton_kind_def)
  with assms(1,3) have "invoke c this h = (Inl (Error dup_msg), h)"
    by (simp add: invoke_char)
  with msgs_differ show ?thesis by simp
qed

theorem uniqueness_checked_before_order_witness:
  "chain [CElement ''div'', CClass ''c''] cssSelectorBuilder init_heap
     = (Inr 2, [\<lparr>selectors = []\<rparr>,
                \<lparr>selectors = [\<lparr>type = ''element'', value = ''div'', order = 1\<rparr>]\<rparr>,
                \<lparr>selectors = [\<lparr>type = ''element'', value = ''div'', order = 1\<rparr>,
                              \<lparr>type = ''class'', value = ''.c'', order = 3\<rparr>]\<rparr>])
   \<and> fst (invoke (CElement ''span'') 2
        [\<lparr>selectors = []\<rparr>,
         \<lparr>selectors = [\<lparr>type = ''element'', value = ''div'', order = 1\<rparr>]\<rparr>,
         \<lparr>selectors = [\<lparr>type = ''element'', value = ''div'', order = 1\<rparr>,
                       \<lparr>type = ''class'', value = ''.c'', order = 3\<rparr>]\<rparr>])
       = Inl (Error dup_msg)
   \<and> Error dup_msg \<noteq> Error order_msg"
proof -
  let ?ob = "\<lparr>selectors = [\<lparr>type = ''element'', value = ''div'', order = 1\<rparr>,
                            \<lparr>type = ''class'', value = ''.c'', order = 3\<rparr>]\<rparr>"
  let ?H = "[\<lparr>selectors = []\<rparr>,
             \<lparr>selectors = [\<lparr>type = ''element'', value = ''div'', order = 1\<rparr>]\<rparr>, ?ob]"
  have c: "chain [CElement ''div'', CClass ''c''] cssSelectorBuilder init_heap = (Inr 2, ?H)"
    by code_simp
  have l: "lookup ?H 2 = Some ?ob"
    by (simp add: lookup_def)
  have k: "kind (CElement ''span'') \<in> {''element'', ''id'', ''pseudoElement''}"
    by simp
  have p: "kind (CElement ''span'') \<in> type ` set (selectors ?ob)"
    by simp
  have o: "checkOrder_forEach 0 (selectors ?ob @ [fragment_of (CElement ''span'')]) = Inl (Error order_msg)"
    by (simp add: fragment_of_def)
  from uniqueness_checked_before_order[OF l k p o] c
  show ?thesis by simp
qed

subsection \<open>Combination\<close>

text \<open>
  C5. For all operands and every combinator string \<open>c\<close>, taken as it is,
  \<open>combine(left, c, right).stringify()\<close> is \<open>left.stringify() + " " + c + " " +
  right.stringify()\<close>. Results of \<open>combine\<close> are operands too, and the nested example of
  the documentation comment yields adjacent spaces around the combinator \<open>' '\<close>.
\<close>

theorem combine_stringify:
  "(\<forall>left c right h l r.
      stringify_of left h = Inr l \<and> stringify_of right h = Inr r
      \<longrightarrow> stringify_of (combine left c right) h = Inr (l @ '' '' @ c @ '' '' @ r))
   \<and> doc_example =
       Inr ''div#main.container.draggable + table#data ~ tr:nth-of-type(even)   td:nth-of-type(even)''"
proof (intro conjI allI impI)
  fix left c right h l r
  assume "stringify_of left h = Inr l \<and> stringify_of right h = Inr r"
  then show "stringify_of (combine left c right) h = Inr (l @ '' '' @ c @ '' '' @ r)"
    by (simp add: combine_def)
next
  show "doc_example =
       Inr ''div#main.container.draggable + table#data ~ tr:nth-of-type(even)   td:nth-of-type(even)''"
    by code_simp
qed

theorem combine_stringify_witness:
  "chain [CElement ''div'', CId ''main''] cssSelectorBuilder init_heap
     = (Inr 2, [\<lparr>selectors = []\<rparr>,
                \<lparr>selectors = [\<lparr>type = ''element'', value = ''div'', order = 1\<rparr>]\<rparr>,
                \<lparr>selectors = [\<lparr>type = ''element'', value = ''div'', order = 1\<rparr>,
                              \<lparr>type = ''id'', value = ''#main'', order = 2\<rparr>]\<rparr>])
   \<and> stringify_of (combine (Selector 2) ''+'' (Selector 1))
        [\<lparr>selectors = []\<rparr>,
         \<lparr>selectors = [\<lparr>type = ''element'', value = ''div'', order = 1\<rparr>]\<rparr>,
         \<lparr>selectors = [\<lparr>type = ''element'', value = ''div'', order = 1\<rparr>,
                       \<lparr>type = ''id'', value = ''#main'', order = 2\<rparr>]\<rparr>]
       = Inr ''div#main + div''"
proof -
  let ?H = "[\<lparr>selectors = []\<rparr>,
             \<lparr>selectors = [\<lparr>type = ''element'', value = ''div'', order = 1\<rparr>]\<rparr>,
             \<lparr>selectors = [\<lparr>type = ''element'', value = ''div'', order = 1\<rparr>,
                           \<lparr>type = ''id'', value = ''#main'', order = 2\<rparr>]\<rparr>]"
  have c: "chain [CElement ''div'', CId ''main''] cssSelectorBuilder init_heap = (Inr 2, ?H)"
    by code_simp
  have s: "stringify_of (Selector 2) ?H = Inr ''div#main'' \<and> stringify_of (Selector 1) ?H = Inr ''div''"
    by code_simp
  from combine_stringify[THEN conjunct1, rule_format, OF s, of "''+''"] c
  show ?thesis by simp
qed

subsection \<open>Valid chains and the invariant\<close>

lemma chain_succeeds:
  "lookup h this = Some ob \<Longrightarrow>
   sorted (map order (selectors ob) @ map rank cs) \<Longrightarrow>
   (\<forall>k. singleton_kind k \<longrightarrow> count_list (map type (selectors ob) @ map kind cs) k \<le> 1) \<Longrightarrow>
   \<exists>a h'. chain cs this h = (Inr a, h')"
proof (induction cs arbitrary: this h ob)
  case Nil
  then show ?case by simp
next
  case (Cons c cs)
  let ?fs = "selectors ob @ [fragment_of c]"
  let ?new = "\<lparr>selectors = ?fs\<rparr>"
  have nodup: "\<not> (singleton_kind (kind c) \<and> kind c \<in> type ` set (selectors ob))"
  proof
    assume d: "singleton_kind (kind c) \<and> kind c \<in> type ` set (selectors ob)"
    then have "0 < count_list (map type (selectors ob)) (kind c)"
      by (simp add: count_pos)
    moreover from d Cons.prems(3)
    have "count_list (map type (selectors ob) @ map kind (c # cs)) (kind c) \<le> 1"
      by blast
    ultimately show False by simp
  qed
  have srt: "sorted (map order ?fs)"
    using Cons.prems(2) by (auto simp: sorted_append)
  from nodup srt Cons.prems(1)
  have i: "invoke c this h = (Inr (length h), h @ [?new])"
    by (simp add: invoke_char Let_def)
  have l: "lookup (h @ [?new]) (length h) = Some ?new"
    by (simp add: lookup_append)
  have "\<exists>a h'. chain cs (length h) (h @ [?new]) = (Inr a, h')"
  proof (rule Cons.IH[OF l])
    show "sorted (map order (selectors ?new) @ map rank cs)"
      using Cons.prems(2) by simp
    show "\<forall>k. singleton_kind k \<longrightarrow> count_list (map type (selectors ?new) @ map kind cs) k \<le> 1"
      using Cons.prems(3) by simp
  qed
  with i show ?case by simp
qed

text \<open>
  C6, as amended. Building from the builder root with calls whose ranks never decrease
  and in which Element, Id and PseudoElement occur at most once each never raises an
  error.
\<close>

theorem valid_order_never_raises:
  assumes "lookup h cssSelectorBuilder = Some \<lparr>selectors = []\<rparr>"
    and "sorted (map rank cs)"
    and "count_list (map kind cs) ''element'' \<le> 1"
    and "count_list (map kind cs) ''id'' \<le> 1"
    and "count_list (map kind cs) ''pseudoElement'' \<le> 1"
  shows "\<exists>a h'. chain cs cssSelectorBuilder h = (Inr a, h')"
proof (rule chain_succeeds[OF assms(1)])
  show "sorted (map order (selectors \<lparr>selectors = []\<rparr>) @ map rank cs)"
    using assms(2) by simp
  show "\<forall>k. singleton_kind k \<longrightarrow>
          count_list (map type (selectors \<lparr>selectors = []\<rparr>) @ map kind cs) k \<le> 1"
    using assms(3-5) by (auto simp: singleton_kind_def)
qed

text \<open>
  C6 as stated fails: the ranks of \<open>element("div").element("span")\<close> do not
  decrease, and the second call raises the duplicate error.
\<close>

theorem valid_order_counterexample:
  "sorted (map rank [CElement ''div'', CElement ''span''])
   \<and> fst (chain [CElement ''div'', CElement ''span''] cssSelectorBuilder init_heap)
       = Inl (Error dup_msg)"
proof
  show "sorted (map rank [CElement ''div'', CElement ''span''])"
    by simp
  show "fst (chain [CElement ''div'', CElement ''span''] cssSelectorBuilder init_heap)
       = Inl (Error dup_msg)"
    by code_simp
qed

theorem valid_order_never_raises_witness:
  "sorted (map rank [CElement ''div'', CId ''main'', CClass ''a'', CClass ''b'', CAttr ''x'',
      CPseudoClass ''hover'', CPseudoElement ''after''])
   \<and> (\<exists>a h'. chain [CElement ''div'', CId ''main'', CClass ''a'', CClass ''b'', CAttr ''x'',
      CPseudoClass ''hover'', CPseudoElement ''after''] cssSelectorBuilder init_heap = (Inr a, h'))"
proof -
  let ?cs = "[CElement ''div'', CId ''main'', CClass ''a'', CClass ''b'', CAttr ''x'',
      CPseudoClass ''hover'', CPseudoElement ''after'']"
  have s: "sorted (map rank ?cs)" by simp
  have e: "count_list (map kind ?cs) ''element'' \<le> 1" by simp
  have i: "count_list (map kind ?cs) ''id'' \<le> 1" by simp
  have p: "count_list (map kind ?cs) ''pseudoElement'' \<le> 1" by simp
  from valid_order_never_raises[OF root_initially s e i p] s
  show ?thesis by blast
qed

lemma invoke_keeps_inv:
  assumes "lookup h this = Some ob" and "selector_inv (selectors ob)"
    and "invoke c this h = (Inr a, h')"
  shows "\<exists>ob'. lookup h' a = Some ob' \<and> selector_inv (selectors ob')"
proof -
  let ?fs = "selectors ob @ [fragment_of c]"
  from assms(1,3) have nodup: "\<not> (singleton_kind (kind c) \<and> kind c \<in> type ` set (selectors ob))"
    and srt: "sorted (map order ?fs)"
    by (auto simp: invoke_char Let_def split: if_splits)
  from invoke_result[OF assms(1,3)] have l: "lookup h' a = Some \<lparr>selectors = ?fs\<rparr>"
    by blast
  have cnt: "count_list (map type ?fs) k \<le> 1" if k: "singleton_kind k"
      and old: "count_list (map type (selectors ob)) k \<le> 1" for k
  proof (cases "kind c = k")
    case True
    with nodup k have "k \<notin> set (map type (selectors ob))" by auto
    then have "count_list (map type (selectors ob)) k = 0" by (rule count_notin)
    with True show ?thesis by simp
  next
    case False
    with old show ?thesis by simp
  qed
  have e: "count_list (map type ?fs) ''element'' \<le> 1"
    using assms(2) by (intro cnt) (simp_all add: singleton_kind_def selector_inv_def)
  have i: "count_list (map type ?fs) ''id'' \<le> 1"
    using assms(2) by (intro cnt) (simp_all add: singleton_kind_def selector_inv_def)
  have p: "count_list (map type ?fs) ''pseudoElement'' \<le> 1"
    using assms(2) by (intro cnt) (simp_all add: singleton_kind_def selector_inv_def)
  from srt e i p have "selector_inv ?fs"
    unfolding selector_inv_def by blast
  with l show ?thesis by simp
qed

lemma chain_keeps_inv:
  "lookup h this = Some ob \<Longrightarrow> selector_inv (selectors ob) \<Longrightarrow>
   chain cs this h = (Inr a, h') \<Longrightarrow>
   \<exists>ob'. lookup h' a = Some ob' \<and> selector_inv (selectors ob')"
proof (induction cs arbitrary: this h ob)
  case Nil
  then show ?case by auto
next
  case (Cons c cs)
  obtain r1 h1 where i: "invoke c this h = (r1, h1)" by (cases "invoke c this h")
  with Cons.prems(3) obtain b where b: "r1 = Inr b" and rest: "chain cs b h1 = (Inr a, h')"
    by (cases r1) auto
  from invoke_keeps_inv[OF Cons.prems(1,2) i[unfolded b]]
  obtain ob1 where "lookup h1 b = Some ob1" and "selector_inv (selectors ob1)" by blast
  from Cons.IH[OF this rest] show ?case .
qed

lemma invoke_rejects_violation:
  assumes "lookup h this = Some ob" and "selector_inv (selectors ob)"
    and "\<not> selector_inv (selectors ob @ [fragment_of c])"
  shows "\<exists>m. fst (invoke c this h) = Inl (Error m)"
proof (cases "sorted (map order (selectors ob @ [fragment_of c]))")
  case False
  with assms(1) show ?thesis by (auto simp: invoke_char Let_def)
next
  case True
  with assms(2,3) have "singleton_kind (kind c) \<and> 0 < count_list (map type (selectors ob)) (kind c)"
    unfolding selector_inv_def singleton_kind_def
    by (auto split: if_splits)
  then have "singleton_kind (kind c) \<and> kind c \<in> type ` set (selectors ob)"
    by (simp add: count_pos)
  with assms(1) show ?thesis by (simp add: invoke_char)
qed

text \<open>
  C7. The builder root satisfies the invariant (ranks never decrease; Element, Id and
  PseudoElement occur at most once each); a successful builder call on a selector that
  satisfies it returns a selector that satisfies it, so every selector built by a chain
  from the root does; and a call whose fragment would break the invariant is rejected
  with an error.
\<close>

theorem selector_invariant:
  "(\<exists>ob. lookup init_heap cssSelectorBuilder = Some ob \<and> selector_inv (selectors ob))
   \<and> (\<forall>c this h ob a h'.
        lookup h this = Some ob \<and> selector_inv (selectors ob) \<and> invoke c this h = (Inr a, h')
        \<longrightarrow> (\<exists>ob'. lookup h' a = Some ob' \<and> selector_inv (selectors ob')))
   \<and> (\<forall>cs h a h'.
        lookup h cssSelectorBuilder = Some \<lparr>selectors = []\<rparr> \<and>
        chain cs cssSelectorBuilder h = (Inr a, h')
        \<longrightarrow> (\<exists>ob'. lookup h' a = Some ob' \<and> selector_inv (selectors ob')))
   \<and> (\<forall>c this h ob.
        lookup h this = Some ob \<and> selector_inv (selectors ob) \<and>
        \<not> selector_inv (selectors ob @ [fragment_of c])
        \<longrightarrow> (\<exists>m. fst (invoke c this h) = Inl (Error m)))"
proof (intro conjI allI impI)
  show "\<exists>ob. lookup init_heap cssSelectorBuilder = Some ob \<and> selector_inv (selectors ob)"
    by (simp add: root_initially selector_inv_def)
next
  fix c this h ob a h'
  assume "lookup h this = Some ob \<and> selector_inv (selectors ob) \<and> invoke c this h = (Inr a, h')"
  then show "\<exists>ob'. lookup h' a = Some ob' \<and> selector_inv (selectors ob')"
    using invoke_keeps_inv by blast
next
  fix cs h a h'
  assume a: "lookup h cssSelectorBuilder = Some \<lparr>selectors = []\<rparr> \<and>
             chain cs cssSelectorBuilder h = (Inr a, h')"
  have "selector_inv (selectors \<lparr>selectors = []\<rparr>)"
    by (simp add: selector_inv_def)
  with a show "\<exists>ob'. lookup h' a = Some ob' \<and> selector_inv (selectors ob')"
    using chain_keeps_inv by blast
next
  fix c this h ob
  assume "lookup h this = Some ob \<and> selector_inv (selectors ob) \<and>
          \<not> selector_inv (selectors ob @ [fragment_of c])"
  then show "\<exists>m. fst (invoke c this h) = Inl (Error m)"
    using invoke_rejects_violation by blast
qed

theorem selector_invariant_witness:
  "(\<exists>ob'. lookup [\<lparr>selectors = []\<rparr>,
                   \<lparr>selectors = [\<lparr>type = ''class'', value = ''.a'', order = 3\<rparr>]\<rparr>,
                   \<lparr>selectors = [\<lparr>type = ''class'', value = ''.a'', order = 3\<rparr>,
                                 \<lparr>type = ''class'', value = ''.b'', order = 3\<rparr>]\<rparr>] 2 = Some ob'
          \<and> selector_inv (selectors ob'))
   \<and> (\<exists>ob'. lookup (snd (chain [CId ''main'', CClass ''c''] cssSelectorBuilder init_heap)) 2 = Some ob'
          \<and> selector_inv (selectors ob'))
   \<and> (\<exists>m. fst (invoke (CElement ''div'') 1
          [\<lparr>selectors = []\<rparr>, \<lparr>selectors = [\<lparr>type = ''class'', value = ''.a'', order = 3\<rparr>]\<rparr>])
        = Inl (Error m))"
proof -
  let ?ob = "\<lparr>selectors = [\<lparr>type = ''class'', value = ''.a'', order = 3\<rparr>]\<rparr>"
  let ?H = "[\<lparr>selectors = []\<rparr>, ?ob]"
  let ?H2 = "[\<lparr>selectors = []\<rparr>, ?ob,
              \<lparr>selectors = [\<lparr>type = ''class'', value = ''.a'', order = 3\<rparr>,
                            \<lparr>type = ''class'', value = ''.b'', order = 3\<rparr>]\<rparr>]"
  let ?cs = "[CId ''main'', CClass ''c'']"
  have l: "lookup ?H 1 = Some ?ob"
    by (simp add: lookup_def)
  have inv: "selector_inv (selectors ?ob)"
    by (simp add: selector_inv_def)
  have i: "invoke (CClass ''b'') 1 ?H = (Inr 2, ?H2)"
    by code_simp
  have step: "lookup ?H 1 = Some ?ob \<and> selector_inv (selectors ?ob)
      \<and> invoke (CClass ''b'') 1 ?H = (Inr 2, ?H2)"
    by (intro conjI l inv i)
  have "fst (chain ?cs cssSelectorBuilder init_heap) = Inr 2"
    by code_simp
  then have c: "chain ?cs cssSelectorBuilder init_heap
      = (Inr 2, snd (chain ?cs cssSelectorBuilder init_heap))"
    by (metis prod.collapse)
  have ch: "lookup init_heap cssSelectorBuilder = Some \<lparr>selectors = []\<rparr>
      \<and> chain ?cs cssSelectorBuilder init_heap = (Inr 2, snd (chain ?cs cssSelectorBuilder init_heap))"
    by (intro conjI root_initially c)
  have v: "\<not> selector_inv (selectors ?ob @ [fragment_of (CElement ''div'')])"
    by (simp add: selector_inv_def fragment_of_def)
  have rej: "lookup ?H 1 = Some ?ob \<and> selector_inv (selectors ?ob)
      \<and> \<not> selector_inv (selectors ?ob @ [fragment_of (CElement ''div'')])"
    by (intro conjI l inv v)
  note s1 = selector_invariant[THEN conjunct2, THEN conjunct1, rule_format, OF step]
  note s2 = selector_invariant[THEN conjunct2, THEN conjunct2, THEN conjunct1, rule_format, OF ch]
  note s3 = selector_invariant[THEN conjunct2, THEN conjunct2, THEN conjunct2, rule_format, OF rej]
  show ?thesis by (rule conjI[OF s1 conjI[OF s2 s3]])
qed

subsection \<open>No mutation\<close>

lemma chain_keeps_objects:
  "chain cs this h = (r, h') \<Longrightarrow> lookup h a = Some ob \<Longrightarrow> lookup h' a = Some ob"
  by (rule lookup_preserved[OF chain_preserved])

lemma invoke_keeps_objects:
  "invoke c this h = (r, h') \<Longrightarrow> lookup h a = Some ob \<Longrightarrow> lookup h' a = Some ob"
  by (rule lookup_preserved[OF invoke_preserved])

lemma invoke_fresh:
  assumes "lookup h this = Some ob" and "invoke c this h = (Inr a, h')"
  shows "lookup h a = None"
proof -
  from invoke_result[OF assms] have "a = length h"
    by (rule conjunct1)
  then show ?thesis
    by (simp add: lookup_def)
qed

lemma observe_chain_same:
  "lookup h this = Some ob \<Longrightarrow> lookup g that = Some ob \<Longrightarrow>
   observe (chain cs this h) = observe (chain cs that g)"
proof (induction cs arbitrary: this h that g ob)
  case Nil
  then show ?case by (simp add: observe_def)
next
  case (Cons c cs)
  let ?fs = "selectors ob @ [fragment_of c]"
  let ?new = "\<lparr>selectors = ?fs\<rparr>"
  show ?case
  proof (cases "singleton_kind (kind c) \<and> kind c \<in> type ` set (selectors ob)")
    case True
    with Cons.prems show ?thesis by (simp add: invoke_char observe_def)
  next
    case nodup: False
    show ?thesis
    proof (cases "sorted (map order ?fs)")
      case False
      with nodup Cons.prems show ?thesis by (auto simp: invoke_char Let_def observe_def)
    next
      case True
      with nodup Cons.prems
      have i1: "invoke c this h = (Inr (length h), h @ [?new])"
        and i2: "invoke c that g = (Inr (length g), g @ [?new])"
        by (simp_all add: invoke_char Let_def)
      have "observe (chain cs (length h) (h @ [?new])) = observe (chain cs (length g) (g @ [?new]))"
        by (rule Cons.IH[of _ _ ?new]) (simp_all add: lookup_append)
      with i1 i2 show ?thesis by simp
    qed
  qed
qed

text \<open>
  C8. No builder call changes an object that exists when it is made, be it its receiver,
  the builder root or the result of another chain, whether the call succeeds or fails; a
  successful call returns an object that did not exist before and that holds the
  receiver's fragments plus the one appended; the root's fragment sequence stays empty
  after any chain on any receiver; and the outcome of a chain from a receiver is the
  same whatever chains have been run from that receiver before.
\<close>

theorem builder_calls_do_not_mutate:
  "(\<forall>cs this h r h' a ob.
      chain cs this h = (r, h') \<and> lookup h a = Some ob \<longrightarrow> lookup h' a = Some ob)
   \<and> (\<forall>c this h ob a h'.
      lookup h this = Some ob \<and> invoke c this h = (Inr a, h')
      \<longrightarrow> lookup h a = None
          \<and> lookup h' a = Some \<lparr>selectors = selectors ob @ [fragment_of c]\<rparr>
          \<and> lookup h' this = Some ob)
   \<and> (\<forall>cs this h r h'.
      lookup h cssSelectorBuilder = Some \<lparr>selectors = []\<rparr> \<and> chain cs this h = (r, h')
      \<longrightarrow> lookup h' cssSelectorBuilder = Some \<lparr>selectors = []\<rparr>)
   \<and> (\<forall>cs1 cs2 this h ob r1 h1.
      lookup h this = Some ob \<and> chain cs1 this h = (r1, h1)
      \<longrightarrow> observe (chain cs2 this h1) = observe (chain cs2 this h))"
proof (intro conjI allI impI)
  fix cs this h r h' a ob
  assume "chain cs this h = (r, h') \<and> lookup h a = Some ob"
  then have "chain cs this h = (r, h')" and "lookup h a = Some ob"
    by simp_all
  then show "lookup h' a = Some ob"
    by (rule chain_keeps_objects)
next
  fix c this h ob a h'
  assume "lookup h this = Some ob \<and> invoke c this h = (Inr a, h')"
  then have l: "lookup h this = Some ob" and i: "invoke c this h = (Inr a, h')"
    by simp_all
  from l i show "lookup h a = None"
    by (rule invoke_fresh)
  from invoke_result[OF l i]
  show "lookup h' a = Some \<lparr>selectors = selectors ob @ [fragment_of c]\<rparr>"
    by (rule conjunct2)
  from i l show "lookup h' this = Some ob"
    by (rule invoke_keeps_objects)
next
  fix cs this h r h'
  assume "lookup h cssSelectorBuilder = Some \<lparr>selectors = []\<rparr> \<and> chain cs this h = (r, h')"
  then have "chain cs this h = (r, h')" and "lookup h cssSelectorBuilder = Some \<lparr>selectors = []\<rparr>"
    by simp_all
  then show "lookup h' cssSelectorBuilder = Some \<lparr>selectors = []\<rparr>"
    by (rule chain_keeps_objects)
next
  fix cs1 cs2 this h ob r1 h1
  assume "lookup h this = Some ob \<and> chain cs1 this h = (r1, h1)"
  then have l: "lookup h this = Some ob" and c: "chain cs1 this h = (r1, h1)"
    by simp_all
  from c l have "lookup h1 this = Some ob"
    by (rule chain_keeps_objects)
  then show "observe (chain cs2 this h1) = observe (chain cs2 this h)"
    using l by (rule observe_chain_same)
qed

theorem builder_calls_do_not_mutate_witness:
  "lookup (snd (chain [CClass ''b''] 1
       [\<lparr>selectors = []\<rparr>, \<lparr>selectors = [\<lparr>type = ''class'', value = ''.a'', order = 3\<rparr>]\<rparr>])) 1
     = Some \<lparr>selectors = [\<lparr>type = ''class'', value = ''.a'', order = 3\<rparr>]\<rparr>
   \<and> (lookup [\<lparr>selectors = []\<rparr>, \<lparr>selectors = [\<lparr>type = ''class'', value = ''.a'', order = 3\<rparr>]\<rparr>] 2 = None
      \<and> lookup [\<lparr>selectors = []\<rparr>,
                 \<lparr>selectors = [\<lparr>type = ''class'', value = ''.a'', order = 3\<rparr>]\<rparr>,
                 \<lparr>selectors = [\<lparr>type = ''class'', value = ''.a'', order = 3\<rparr>,
                               \<lparr>type = ''class'', value = ''.b'', order = 3\<rparr>]\<rparr>] 2
          = Some \<lparr>selectors = selectors \<lparr>selectors = [\<lparr>type = ''class'', value = ''.a'', order = 3\<rparr>]\<rparr>
                    @ [fragment_of (CClass ''b'')]\<rparr>
      \<and> lookup [\<lparr>selectors = []\<rparr>,
                 \<lparr>selectors = [\<lparr>type = ''class'', value = ''.a'', order = 3\<rparr>]\<rparr>,
                 \<lparr>selectors = [\<lparr>type = ''class'', value = ''.a'', order = 3\<rparr>,
                               \<lparr>type = ''class'', value = ''.b'', order = 3\<rparr>]\<rparr>] 1
          = Some \<lparr>selectors = [\<lparr>type = ''class'', value = ''.a'', order = 3\<rparr>]\<rparr>)
   \<and> lookup (snd (chain [CElement ''div'', CElement ''span''] cssSelectorBuilder init_heap))
        cssSelectorBuilder = Some \<lparr>selectors = []\<rparr>
   \<and> observe (chain [CId ''main''] cssSelectorBuilder
        (snd (chain [CElement ''div''] cssSelectorBuilder init_heap)))
       = observe (chain [CId ''main''] cssSelectorBuilder init_heap)"
proof -
  let ?ob = "\<lparr>selectors = [\<lparr>type = ''class'', value = ''.a'', order = 3\<rparr>]\<rparr>"
  let ?H = "[\<lparr>selectors = []\<rparr>, ?ob]"
  let ?H2 = "[\<lparr>selectors = []\<rparr>, ?ob,
              \<lparr>selectors = [\<lparr>type = ''class'', value = ''.a'', order = 3\<rparr>,
                            \<lparr>type = ''class'', value = ''.b'', order = 3\<rparr>]\<rparr>]"
  have l: "lookup ?H 1 = Some ?ob"
    by (simp add: lookup_def)
  have c1: "chain [CClass ''b''] 1 ?H
      = (fst (chain [CClass ''b''] 1 ?H), snd (chain [CClass ''b''] 1 ?H))"
    by (rule prod.collapse[symmetric])
  have i: "invoke (CClass ''b'') 1 ?H = (Inr 2, ?H2)"
    by code_simp
  have c3: "chain [CElement ''div'', CElement ''span''] cssSelectorBuilder init_heap
      = (fst (chain [CElement ''div'', CElement ''span''] cssSelectorBuilder init_heap),
         snd (chain [CElement ''div'', CElement ''span''] cssSelectorBuilder init_heap))"
    by (rule prod.collapse[symmetric])
  have c4: "chain [CElement ''div''] cssSelectorBuilder init_heap
      = (fst (chain [CElement ''div''] cssSelectorBuilder init_heap),
         snd (chain [CElement ''div''] cssSelectorBuilder init_heap))"
    by (rule prod.collapse[symmetric])
  note w1 = builder_calls_do_not_mutate[THEN conjunct1, rule_format, OF conjI[OF c1 l]]
  note w2 = builder_calls_do_not_mutate[THEN conjunct2, THEN conjunct1, rule_format,
      OF conjI[OF l i]]
  note w3 = builder_calls_do_not_mutate[THEN conjunct2, THEN conjunct2, THEN conjunct1,
      rule_format, OF conjI[OF root_initially c3]]
  note w4 = builder_calls_do_not_mutate[THEN conjunct2, THEN conjunct2, THEN conjunct2,
      rule_format, OF conjI[OF root_initially c4], of "[CId ''main'']"]
  show ?thesis
    by (rule conjI[OF w1 conjI[OF w2 conjI[OF w3 w4]]])
qed

subsection \<open>Failed calls\<close>

text \<open>
  C9. A builder call on a selector \<open>s\<close> that raises an error leaves the fragments of
  \<open>s\<close> as they were, and every later call on \<open>s\<close> has the outcome it would have had
  without the failed call: the same error, or success with the same fragments and the
  same \<open>stringify()\<close> result.
\<close>

theorem failed_call_is_atomic:
  assumes "lookup h s = Some ob" and "invoke c s h = (Inl e, h')"
  shows "lookup h' s = Some ob
       \<and> observe (invoke c2 s h') = observe (invoke c2 s h)
       \<and> (\<forall>a h2. invoke c2 s h = (Inr a, h2)
            \<longrightarrow> (\<exists>a' h2'. invoke c2 s h' = (Inr a', h2')
                   \<and> lookup h2' a' = lookup h2 a
                   \<and> stringify a' h2' = stringify a h2))"
proof (intro conjI allI impI)
  from assms(2,1) show l': "lookup h' s = Some ob"
    by (rule invoke_keeps_objects)
  from observe_chain_same[OF l' assms(1), of "[c2]"]
  show o: "observe (invoke c2 s h') = observe (invoke c2 s h)"
    by (simp add: observe_def split: prod.splits sum.splits)
  fix a h2
  assume i: "invoke c2 s h = (Inr a, h2)"
  let ?new = "\<lparr>selectors = selectors ob @ [fragment_of c2]\<rparr>"
  from invoke_result[OF assms(1) i] have r: "lookup h2 a = Some ?new"
    by blast
  from i assms(1) have ok: "\<not> (singleton_kind (kind c2) \<and> kind c2 \<in> type ` set (selectors ob))"
      "sorted (map order (selectors ob @ [fragment_of c2]))"
    by (auto simp: invoke_char Let_def split: if_splits)
  with l' have i': "invoke c2 s h' = (Inr (length h'), h' @ [?new])"
    by (simp add: invoke_char Let_def)
  from invoke_result[OF l' i'] have r': "lookup (h' @ [?new]) (length h') = Some ?new"
    by blast
  from r r' have "stringify (length h') (h' @ [?new]) = stringify a h2"
    by (simp add: stringify_char)
  with i' r r' show "\<exists>a' h2'. invoke c2 s h' = (Inr a', h2')
      \<and> lookup h2' a' = lookup h2 a \<and> stringify a' h2' = stringify a h2"
    by simp
qed

theorem failed_call_is_atomic_witness:
  "invoke (CElement ''div'') 1
      [\<lparr>selectors = []\<rparr>, \<lparr>selectors = [\<lparr>type = ''class'', value = ''.a'', order = 3\<rparr>]\<rparr>]
     = (Inl (Error order_msg),
        [\<lparr>selectors = []\<rparr>,
         \<lparr>selectors = [\<lparr>type = ''class'', value = ''.a'', order = 3\<rparr>]\<rparr>,
         \<lparr>selectors = [\<lparr>type = ''class'', value = ''.a'', order = 3\<rparr>,
                       \<lparr>type = ''element'', value = ''div'', order = 1\<rparr>]\<rparr>])
   \<and> lookup [\<lparr>selectors = []\<rparr>,
         \<lparr>selectors = [\<lparr>type = ''class'', value = ''.a'', order = 3\<rparr>]\<rparr>,
         \<lparr>selectors = [\<lparr>type = ''class'', value = ''.a'', order = 3\<rparr>,
                       \<lparr>type = ''element'', value = ''div'', order = 1\<rparr>]\<rparr>] 1
       = Some \<lparr>selectors = [\<lparr>type = ''class'', value = ''.a'', order = 3\<rparr>]\<rparr>
   \<and> observe (invoke (CClass ''b'') 1
         [\<lparr>selectors = []\<rparr>,
          \<lparr>selectors = [\<lparr>type = ''class'', value = ''.a'', order = 3\<rparr>]\<rparr>,
          \<lparr>selectors = [\<lparr>type = ''class'', value = ''.a'', order = 3\<rparr>,
                        \<lparr>type = ''element'', value = ''div'', order = 1\<rparr>]\<rparr>])
       = observe (invoke (CClass ''b'') 1
         [\<lparr>selectors = []\<rparr>, \<lparr>selectors = [\<lparr>type = ''class'', value = ''.a'', order = 3\<rparr>]\<rparr>])
   \<and> observe (invoke (CClass ''b'') 1
         [\<lparr>selectors = []\<rparr>, \<lparr>selectors = [\<lparr>type = ''class'', value = ''.a'', order = 3\<rparr>]\<rparr>])
       = Inr (Some [\<lparr>type = ''class'', value = ''.a'', order = 3\<rparr>,
                    \<lparr>type = ''class'', value = ''.b'', order = 3\<rparr>])
   \<and> (\<exists>a' h2'. invoke (CClass ''b'') 1
         [\<lparr>selectors = []\<rparr>,
          \<lparr>selectors = [\<lparr>type = ''class'', value = ''.a'', order = 3\<rparr>]\<rparr>,
          \<lparr>selectors = [\<lparr>type = ''class'', value = ''.a'', order = 3\<rparr>,
                        \<lparr>type = ''element'', value = ''div'', order = 1\<rparr>]\<rparr>] = (Inr a', h2')
        \<and> lookup h2' a' = lookup
            [\<lparr>selectors = []\<rparr>,
             \<lparr>selectors = [\<lparr>type = ''class'', value = ''.a'', order = 3\<rparr>]\<rparr>,
             \<lparr>selectors = [\<lparr>type = ''class'', value = ''.a'', order = 3\<rparr>,
                           \<lparr>type = ''class'', value = ''.b'', order = 3\<rparr>]\<rparr>] 2
        \<and> stringify a' h2' = stringify 2
            [\<lparr>selectors = []\<rparr>,
             \<lparr>selectors = [\<lparr>type = ''class'', value = ''.a'', order = 3\<rparr>]\<rparr>,
             \<lparr>selectors = [\<lparr>type = ''class'', value = ''.a'', order = 3\<rparr>,
                           \<lparr>type = ''class'', value = ''.b'', order = 3\<rparr>]\<rparr>])"
proof -
  let ?ob = "\<lparr>selectors = [\<lparr>type = ''class'', value = ''.a'', order = 3\<rparr>]\<rparr>"
  let ?H = "[\<lparr>selectors = []\<rparr>, ?ob]"
  let ?H' = "[\<lparr>selectors = []\<rparr>, ?ob,
              \<lparr>selectors = [\<lparr>type = ''class'', value = ''.a'', order = 3\<rparr>,
                            \<lparr>type = ''element'', value = ''div'', order = 1\<rparr>]\<rparr>]"
  have l: "lookup ?H 1 = Some ?ob"
    by (simp add: lookup_def)
  have i: "invoke (CElement ''div'') 1 ?H = (Inl (Error order_msg), ?H')"
    by code_simp
  have o: "observe (invoke (CClass ''b'') 1 ?H)
      = Inr (Some [\<lparr>type = ''class'', value = ''.a'', order = 3\<rparr>,
                   \<lparr>type = ''class'', value = ''.b'', order = 3\<rparr>])"
    by code_simp
  have i2: "invoke (CClass ''b'') 1 ?H
      = (Inr 2, [\<lparr>selectors = []\<rparr>, ?ob,
                 \<lparr>selectors = [\<lparr>type = ''class'', value = ''.a'', order = 3\<rparr>,
                               \<lparr>type = ''class'', value = ''.b'', order = 3\<rparr>]\<rparr>])"
    by code_simp
  note w = failed_call_is_atomic[OF l i, of "CClass ''b''"]
  note w3 = w[THEN conjunct2, THEN conjunct2, rule_format, OF i2]
  show ?thesis
    by (rule conjI[OF i conjI[OF w[THEN conjunct1]
          conjI[OF w[THEN conjunct2, THEN conjunct1] conjI[OF o w3]]]])
qed

end
